theory Spec2Isabelle
  imports Main
begin

section \<open>JavaScript strings\<close>

text \<open>
  A JavaScript string is a sequence of 16-bit code units, here the list of their numbers
  (each below 65536; no operation of the module computes with them). String literals of the
  source are written \<open>js ''...''\<close>.
\<close>

type_synonym jsstring = "nat list"

definition js :: "string \<Rightarrow> jsstring" where
  "js s = map of_char s"

text \<open>
  A value that is a string or \<open>undefined\<close> (an unset environment variable, a property that
  was never assigned). \<open>truthy\<close> is the test of \<open>if (v)\<close>: \<open>undefined\<close> and the empty string
  are falsy. \<open>str\<close> is the coercion done by \<open>+\<close> with a string operand.
\<close>

definition truthy :: "jsstring option \<Rightarrow> bool" where
  "truthy v = (case v of None \<Rightarrow> False | Some s \<Rightarrow> s \<noteq> [])"

definition str :: "jsstring option \<Rightarrow> jsstring" where
  "str v = (case v of None \<Rightarrow> js ''undefined'' | Some s \<Rightarrow> s)"

text \<open>
  \<open>String.prototype.trim\<close> removes WhiteSpace and LineTerminator code units from both ends.
\<close>

definition isWhiteSpace :: "nat \<Rightarrow> bool" where
  "isWhiteSpace c \<longleftrightarrow>
     c = 0x09 \<or> c = 0x0A \<or> c = 0x0B \<or> c = 0x0C \<or> c = 0x0D \<or> c = 0x20 \<or> c = 0xA0 \<or>
     c = 0x1680 \<or> (0x2000 \<le> c \<and> c \<le> 0x200A) \<or> c = 0x2028 \<or> c = 0x2029 \<or>
     c = 0x202F \<or> c = 0x205F \<or> c = 0x3000 \<or> c = 0xFEFF"

definition trim :: "jsstring \<Rightarrow> jsstring" where
  "trim s = rev (dropWhile isWhiteSpace (rev (dropWhile isWhiteSpace s)))"

text \<open>The regular expression class \<open>\w\<close> is \<open>[A-Za-z0-9_]\<close>; \<open>\W\<close> is its complement.\<close>

definition isWordChar :: "nat \<Rightarrow> bool" where
  "isWordChar c \<longleftrightarrow>
     (0x30 \<le> c \<and> c \<le> 0x39) \<or> (0x41 \<le> c \<and> c \<le> 0x5A) \<or> c = 0x5F \<or> (0x61 \<le> c \<and> c \<le> 0x7A)"

text \<open>\<open>s.replace(/\W/g, '_')\<close>: every code unit matching \<open>\W\<close> becomes an underscore.\<close>

definition replace_nonword :: "jsstring \<Rightarrow> jsstring" where
  "replace_nonword s = map (\<lambda>c. if isWordChar c then c else 0x5F) s"

text \<open>
  \<open>s.substring(a, b)\<close>: both indices are clamped to the length and swapped when out of
  order.
\<close>

definition substring :: "nat \<Rightarrow> nat \<Rightarrow> jsstring \<Rightarrow> jsstring" where
  "substring a b s =
     (let a' = min a (length s); b' = min b (length s);
          lo = min a' b'; hi = max a' b'
      in take (hi - lo) (drop lo s))"

text \<open>\<open>s.substr(n)\<close> for a length \<open>n\<close>: the rest of the string from index \<open>n\<close>.\<close>

definition substr :: "nat \<Rightarrow> jsstring \<Rightarrow> jsstring" where
  "substr n s = drop n s"

section \<open>titleSlug\<close>

text \<open>The title is a string, or \<open>undefined\<close> when no title was ever set.\<close>

definition titleSlug :: "jsstring option \<Rightarrow> jsstring" where
  "titleSlug title =
     (if \<not> truthy title then js ''''
      else substring 0 251 (replace_nonword (trim (str title))))"

section \<open>formatJenkinsImageUrls\<close>

record env =
  JENKINS_URL :: "jsstring option"
  BUILD_URL :: "jsstring option"
  JOB_NAME :: "jsstring option"
  WORKSPACE :: "jsstring option"

record urls =
  imageUrl :: "jsstring option"
  archivedImageUrl :: "jsstring option"

text \<open>
  The function reads \<open>process.env\<close> and writes diagnostics with \<open>console.log\<close>; the model
  takes the environment and returns the lines logged beside the result (\<open>None\<close> is \<open>null\<close>).
\<close>

definition formatJenkinsImageUrls ::
    "env \<Rightarrow> jsstring \<Rightarrow> jsstring \<Rightarrow> urls option \<times> jsstring list" where
  "formatJenkinsImageUrls e screenShotPath imageName =
     (let jenkinsUrl = JENKINS_URL e; buildUrl = BUILD_URL e;
          jobName = JOB_NAME e; workspace = WORKSPACE e
      in if \<not> truthy workspace then
           (None, [js ''nemo-screenshot was unable to format Jenkins image URLs: WORKSPACE env variable is not defined''])
         else
           let relImagePath = substr (length (str workspace)) screenShotPath;
               (imageUrl, out) =
                 (if truthy jobName then
                    (Some (str jenkinsUrl @ js ''job/'' @ str jobName @ js ''/ws'' @ relImagePath
                             @ js ''/'' @ imageName), [])
                  else
                    (None, [js ''nemo-screenshot was unable to format Jenkins workspace image URL: JOB_NAME env variable is not defined'']));
               archivedImageUrl =
                 (if truthy buildUrl then
                    Some (str buildUrl @ js ''artifact'' @ relImagePath @ js ''/'' @ imageName)
                  else None)
           in if truthy imageUrl \<or> truthy archivedImageUrl then
                (Some \<lparr>imageUrl = imageUrl, archivedImageUrl = archivedImageUrl\<rparr>, out)
              else (None, out))"

section \<open>The promise shim \<open>p\<close>\<close>

text \<open>
  Modelled from the spec: the two promise primitives themselves (the native \<open>Promise\<close> and
  the driver's \<open>wd.promise.defer()\<close>) are not part of the repository. Each is a cell that is
  pending until it is settled, and settling a cell that is no longer pending does nothing.
\<close>

datatype ('v, 'e) settled = Pending | Fulfilled 'v | Rejected 'e

definition settle :: "('v, 'e) settled \<Rightarrow> ('v, 'e) settled \<Rightarrow> ('v, 'e) settled" where
  "settle outcome cell = (case cell of Pending \<Rightarrow> outcome | _ \<Rightarrow> cell)"

text \<open>
  \<open>p\<close> always creates the driver's deferred and first binds \<open>fulfill\<close> and \<open>reject\<close> to
  it. When \<open>global.Promise\<close> exists it creates a native promise whose executor rebinds both
  to the native resolving functions, and returns the native promise; otherwise it returns the
  promise of the driver's deferred. The record holds one cell for each primitive and says
  which cell the returned promise and each resolving function stand for; the native cell is
  used only when the native promise was created.
\<close>

datatype primitive = WdPromiz | NativePromise

record ('v, 'e) deferred =
  wdPromiz :: "('v, 'e) settled"
  nativePromiz :: "('v, 'e) settled"
  promiz :: primitive
  fulfill_to :: primitive
  reject_to :: primitive

definition cell_of :: "primitive \<Rightarrow> ('v, 'e) deferred \<Rightarrow> ('v, 'e) settled" where
  "cell_of t d = (case t of WdPromiz \<Rightarrow> wdPromiz d | NativePromise \<Rightarrow> nativePromiz d)"

definition settle_at ::
    "primitive \<Rightarrow> ('v, 'e) settled \<Rightarrow> ('v, 'e) deferred \<Rightarrow> ('v, 'e) deferred" where
  "settle_at t outcome d =
     (case t of
        WdPromiz \<Rightarrow> d\<lparr>wdPromiz := settle outcome (wdPromiz d)\<rparr>
      | NativePromise \<Rightarrow> d\<lparr>nativePromiz := settle outcome (nativePromiz d)\<rparr>)"

definition p :: "bool \<Rightarrow> ('v, 'e) deferred" where
  "p global_Promise =
     (let d = \<lparr>wdPromiz = Pending, nativePromiz = Pending, promiz = WdPromiz,
                fulfill_to = WdPromiz, reject_to = WdPromiz\<rparr>
      in if global_Promise then
           d\<lparr>fulfill_to := NativePromise, reject_to := NativePromise, promiz := NativePromise\<rparr>
         else d\<lparr>promiz := WdPromiz\<rparr>)"

definition fulfill :: "'v \<Rightarrow> ('v, 'e) deferred \<Rightarrow> ('v, 'e) deferred" where
  "fulfill n d = settle_at (fulfill_to d) (Fulfilled n) d"

definition reject :: "'e \<Rightarrow> ('v, 'e) deferred \<Rightarrow> ('v, 'e) deferred" where
  "reject err d = settle_at (reject_to d) (Rejected err) d"

definition promise :: "('v, 'e) deferred \<Rightarrow> ('v, 'e) settled" where
  "promise d = cell_of (promiz d) d"

text \<open>A caller's use of the pair: any sequence of calls of the two resolving functions.\<close>

datatype ('v, 'e) resolver_call = CallFulfill 'v | CallReject 'e

fun call :: "('v, 'e) resolver_call \<Rightarrow> ('v, 'e) deferred \<Rightarrow> ('v, 'e) deferred" where
  "call (CallFulfill n) d = fulfill n d"
| "call (CallReject err) d = reject err d"

fun outcome_of :: "('v, 'e) resolver_call \<Rightarrow> ('v, 'e) settled" where
  "outcome_of (CallFulfill n) = Fulfilled n"
| "outcome_of (CallReject err) = Rejected err"

fun calls :: "('v, 'e) resolver_call list \<Rightarrow> ('v, 'e) deferred \<Rightarrow> ('v, 'e) deferred" where
  "calls [] d = d"
| "calls (c # cs) d = calls cs (call c d)"

section \<open>Paths\<close>

text \<open>
  \<open>path.resolve\<close>, \<open>path.join\<close> and \<open>path.dirname\<close> are Node's (POSIX flavour), not the
  repository's. They are modelled by what they compute on the segments between slashes:
  empty segments and \<open>.\<close> are dropped, \<open>..\<close> removes the segment before it (or is kept,
  for a relative path that climbs above its start).
\<close>

definition slash :: nat where
  "slash = 0x2F"

text \<open>\<open>s.split('/')\<close>; the result is never empty.\<close>

fun split_slash :: "jsstring \<Rightarrow> jsstring list" where
  "split_slash [] = [[]]"
| "split_slash (c # cs) =
     (if c = slash then [] # split_slash cs
      else (c # hd (split_slash cs)) # tl (split_slash cs))"

text \<open>\<open>segs.join('/')\<close>\<close>

fun join_slash :: "jsstring list \<Rightarrow> jsstring" where
  "join_slash [] = []"
| "join_slash [seg] = seg"
| "join_slash (seg # segs) = seg @ slash # join_slash segs"

text \<open>
  One segment of \<open>normalizeString\<close>; \<open>res\<close> is the stack of segments kept so far, the last
  one first.
\<close>

definition norm_step :: "bool \<Rightarrow> jsstring list \<Rightarrow> jsstring \<Rightarrow> jsstring list" where
  "norm_step allowAboveRoot res seg =
     (if seg = [] \<or> seg = js ''.'' then res
      else if seg = js ''..'' then
        (case res of
           [] \<Rightarrow> if allowAboveRoot then [seg] else []
         | lastSegment # rest \<Rightarrow>
             if lastSegment \<noteq> js ''..'' then rest
             else if allowAboveRoot then seg # res else res)
      else seg # res)"

definition normalizeString :: "bool \<Rightarrow> jsstring \<Rightarrow> jsstring" where
  "normalizeString allowAboveRoot path =
     join_slash (rev (foldl (norm_step allowAboveRoot) [] (split_slash path)))"

definition path_normalize :: "jsstring \<Rightarrow> jsstring" where
  "path_normalize path =
     (if path = [] then js ''.''
      else
        let isAbsolute = (hd path = slash);
            trailingSeparator = (last path = slash);
            q = normalizeString (\<not> isAbsolute) path
        in if q = [] then
             (if isAbsolute then js ''/'' else if trailingSeparator then js ''./'' else js ''.'')
           else
             let q' = (if trailingSeparator then q @ js ''/'' else q)
             in if isAbsolute then slash # q' else q')"

text \<open>\<open>path.join(a, b)\<close>: the non-empty arguments joined by a slash, then normalised.\<close>

definition path_join :: "jsstring \<Rightarrow> jsstring \<Rightarrow> jsstring" where
  "path_join a b =
     (let joined = (if a = [] then b else if b = [] then a else a @ js ''/'' @ b)
      in if joined = [] then js ''.'' else path_normalize joined)"

text \<open>
  \<open>path.resolve(d)\<close>: \<open>d\<close> when it is absolute, else \<open>d\<close> below the working directory
  \<open>process.cwd()\<close>; normalised, with no trailing slash.
\<close>

definition path_resolve :: "jsstring \<Rightarrow> jsstring \<Rightarrow> jsstring" where
  "path_resolve cwd d =
     (let (resolvedPath, resolvedAbsolute) =
            (if d = [] then ([], False) else (d @ js ''/'', hd d = slash));
          (resolvedPath, resolvedAbsolute) =
            (if resolvedAbsolute \<or> cwd = [] then (resolvedPath, resolvedAbsolute)
             else (cwd @ js ''/'' @ resolvedPath, hd cwd = slash));
          q = normalizeString (\<not> resolvedAbsolute) resolvedPath
      in if resolvedAbsolute then slash # q
         else if q \<noteq> [] then q else js ''.'')"

text \<open>
  \<open>path.dirname(path)\<close>: the path up to the last slash that follows index 0 and precedes
  a non-slash; trailing slashes are skipped.
\<close>

definition path_dirname :: "jsstring \<Rightarrow> jsstring" where
  "path_dirname path =
     (if path = [] then js ''.''
      else
        let hasRoot = (hd path = slash);
            r = dropWhile (\<lambda>c. c = slash) (rev (tl path));
            r' = dropWhile (\<lambda>c. c \<noteq> slash) r
        in if r' = [] then (if hasRoot then js ''/'' else js ''.'')
           else if hasRoot \<and> length r' = 1 then js ''//''
           else take (length r') path)"

text \<open>
  A path lies under a directory when the directory's segments are a proper prefix of the
  path's and the path has no \<open>..\<close> segment left.
\<close>

definition segments :: "jsstring \<Rightarrow> jsstring list" where
  "segments path = filter (\<lambda>seg. seg \<noteq> []) (split_slash path)"

definition path_under :: "jsstring \<Rightarrow> jsstring \<Rightarrow> bool" where
  "path_under dir path \<longleftrightarrow>
     length (segments dir) < length (segments path) \<and>
     take (length (segments dir)) (segments path) = segments dir \<and>
     js ''..'' \<notin> set (segments path)"

section \<open>The driver, the file system and the process\<close>

text \<open>
  An error object: its \<open>stack\<close> property (a string, or \<open>undefined\<close>) and the marker
  \<open>_nemoScreenshotHandled\<close> that the exception listener sets on it.
\<close>

record js_error =
  message :: jsstring
  stack :: "jsstring option"
  nemoScreenshotHandled :: bool

text \<open>
  What \<open>driver.getSession()\<close> returns: a falsy value, or a thenable that stays pending, is
  rejected, or is fulfilled with a session (\<open>True\<close>) or with a falsy value (\<open>False\<close>).
\<close>

datatype session_reply = Falsy | Thenable "(bool, js_error) settled"

text \<open>
  The screenshot object that \<open>snap\<close> builds, and the object that \<open>source\<close> builds. Both
  operations resolve with \<open>true\<close> (\<open>NoOp\<close>) when there is no session.
\<close>

record imageObj = urls +
  imageName :: jsstring
  imagePath :: jsstring

record sourceObj =
  sourceName :: jsstring
  sourcePath :: jsstring

datatype 'a resolved = NoOp | Obj 'a

text \<open>
  What a call can throw: the RangeError of an exhausted call stack, a TypeError, or an
  error object thrown by the host.
\<close>

datatype thrown = RangeError | TypeError | Threw js_error

text \<open>
  \<open>fs.writeFile(path, data, callback)\<close> writes the file and calls back without an error,
  or calls back with an error, or throws before it returns (it does so for a path it
  refuses, such as one with a NUL character).
\<close>

datatype write_outcome = Written | CallbackError js_error | ThrowsSync js_error

text \<open>
  The parts of the host that the module calls. Each driver command has one outcome;
  \<open>mkdirp.sync\<close> throws, and \<open>fs.writeFile\<close> fails, on the paths for which the host says
  so. \<open>process_pid\<close> and \<open>Date_now\<close> are the decimal strings of \<open>process.pid\<close> and
  \<open>new Date().getTime()\<close>.

  The control flow is a synchronous event emitter. Besides the module's listener, the
  host's own listeners are subscribed to the uncaught-exception event, some before and some
  after it; of a host listener only whether it returns or throws is modelled.
  \<open>stack_room\<close> is the number of nested listener calls for which an empty call stack has
  room.
\<close>

record world =
  global_Promise :: bool
  getSession :: session_reply
  takeScreenshot :: "(jsstring, js_error) settled"
  getPageSource :: "(jsstring, js_error) settled"
  executeScript :: "(jsstring, js_error) settled"
  mkdirp_error :: "jsstring \<Rightarrow> js_error option"
  writeFile_outcome :: "jsstring \<Rightarrow> write_outcome"
  process_env :: env
  process_cwd :: jsstring
  process_pid :: jsstring
  Date_now :: jsstring
  stack_room :: nat
  listeners_before :: "(js_error \<Rightarrow> thrown option) list"
  listeners_after :: "(js_error \<Rightarrow> thrown option) list"

text \<open>The arguments of \<open>setup\<close> that the operations close over.\<close>

record config =
  screenShotPath :: jsstring
  autoCaptureOptions :: "jsstring list"

text \<open>
  The error argument of \<open>done\<close>: \<open>undefined\<close>, \<open>null\<close>, a boolean, a number, a string, or
  an error object. A primitive is truthy when it is \<open>true\<close>, a number other than zero, or a
  string that is not empty.
\<close>

datatype errarg = Undefined | Null | Bool bool | Num int | Str jsstring | Err js_error

definition truthy_primitive :: "errarg \<Rightarrow> bool" where
  "truthy_primitive err =
     (case err of Bool b \<Rightarrow> b | Num n \<Rightarrow> n \<noteq> 0 | Str s \<Rightarrow> s \<noteq> [] | _ \<Rightarrow> False)"

text \<open>
  Everything the module does to its surroundings: driver commands, file-system calls,
  console output, the completion callback of \<open>done\<close> and events emitted on the control
  flow. The effects of one operation are listed together, and the callback of a write right
  after the write; how the host interleaves the callbacks of operations that are under way
  at the same time is not modelled. A written file holds the bytes decoded from a base64
  string, or text.
\<close>

datatype file_data = Base64 jsstring | Text jsstring

datatype effect =
    DriverGetSession
  | DriverTakeScreenshot
  | DriverGetPageSource
  | DriverExecuteScript
  | MkdirpSync jsstring
  | FsWriteFile jsstring
  | ConsoleLog jsstring
  | ConsoleLogError jsstring js_error
  | ConsoleError js_error
  | Callback errarg
  | FlowEmit js_error

record sys =
  files :: "jsstring \<rightharpoonup> file_data"
  trace :: "effect list"

definition do :: "effect \<Rightarrow> sys \<Rightarrow> sys" where
  "do ef s = s\<lparr>trace := trace s @ [ef]\<rparr>"

definition is_fs_effect :: "effect \<Rightarrow> bool" where
  "is_fs_effect ef = (case ef of MkdirpSync _ \<Rightarrow> True | FsWriteFile _ \<Rightarrow> True | _ \<Rightarrow> False)"

text \<open>\<open>console.log\<close> of each line in turn.\<close>

definition console_log :: "jsstring list \<Rightarrow> sys \<Rightarrow> sys" where
  "console_log out s = foldl (\<lambda>s line. do (ConsoleLog line) s) s out"

text \<open>\<open>mkdirp.sync(dir)\<close> returns, or throws the error the host gives for \<open>dir\<close>.\<close>

definition mkdirp_sync :: "world \<Rightarrow> jsstring \<Rightarrow> sys \<Rightarrow> js_error option \<times> sys" where
  "mkdirp_sync w dir s = (mkdirp_error w dir, do (MkdirpSync dir) s)"

text \<open>The call of \<open>fs.writeFile\<close> with its outcome; the file exists after \<open>Written\<close>.\<close>

definition writeFile :: "world \<Rightarrow> jsstring \<Rightarrow> file_data \<Rightarrow> sys \<Rightarrow> write_outcome \<times> sys" where
  "writeFile w path data s =
     (case writeFile_outcome w path of
        Written \<Rightarrow> (Written, do (FsWriteFile path) (s\<lparr>files := (files s)(path \<mapsto> data)\<rparr>))
      | CallbackError err \<Rightarrow> (CallbackError err, do (FsWriteFile path) s)
      | ThrowsSync err \<Rightarrow> (ThrowsSync err, do (FsWriteFile path) s))"

section \<open>JSON.stringify\<close>

text \<open>
  \<open>JSON.stringify\<close> on the values \<open>snap\<close> resolves with: \<open>true\<close>, or the screenshot object,
  whose properties are written in the order in which \<open>snap\<close> assigns them, those that are
  \<open>undefined\<close> left out. A string is quoted as ECMAScript's QuoteJSONString does: the
  double quote, the backslash and the control characters are escaped, a surrogate code unit
  without its partner is written as a \<open>\u\<close> escape, everything else stands for itself.
\<close>

definition hex_digit :: "nat \<Rightarrow> nat" where
  "hex_digit n = (if n < 10 then 0x30 + n else 0x57 + n)"

definition unicode_escape :: "nat \<Rightarrow> jsstring" where
  "unicode_escape c =
     [0x5C, 0x75, hex_digit (c div 4096 mod 16), hex_digit (c div 256 mod 16),
      hex_digit (c div 16 mod 16), hex_digit (c mod 16)]"

definition leading_surrogate :: "nat \<Rightarrow> bool" where
  "leading_surrogate c \<longleftrightarrow> 0xD800 \<le> c \<and> c \<le> 0xDBFF"

definition trailing_surrogate :: "nat \<Rightarrow> bool" where
  "trailing_surrogate c \<longleftrightarrow> 0xDC00 \<le> c \<and> c \<le> 0xDFFF"

fun quote_units :: "jsstring \<Rightarrow> jsstring" where
  "quote_units [] = []"
| "quote_units (c # cs) =
     (if c = 0x08 then [0x5C, 0x62] @ quote_units cs
      else if c = 0x09 then [0x5C, 0x74] @ quote_units cs
      else if c = 0x0A then [0x5C, 0x6E] @ quote_units cs
      else if c = 0x0C then [0x5C, 0x66] @ quote_units cs
      else if c = 0x0D then [0x5C, 0x72] @ quote_units cs
      else if c = 0x22 then [0x5C, 0x22] @ quote_units cs
      else if c = 0x5C then [0x5C, 0x5C] @ quote_units cs
      else if c < 0x20 then unicode_escape c @ quote_units cs
      else if leading_surrogate c then
        (case cs of
           [] \<Rightarrow> unicode_escape c
         | d # ds \<Rightarrow>
             if trailing_surrogate d then c # d # quote_units ds
             else unicode_escape c @ quote_units cs)
      else if trailing_surrogate c then unicode_escape c @ quote_units cs
      else c # quote_units cs)"

definition QuoteJSONString :: "jsstring \<Rightarrow> jsstring" where
  "QuoteJSONString s = [0x22] @ quote_units s @ [0x22]"

definition json_property :: "string \<Rightarrow> jsstring option \<Rightarrow> jsstring list" where
  "json_property key v =
     (case v of None \<Rightarrow> [] | Some s \<Rightarrow> [QuoteJSONString (js key) @ js '':'' @ QuoteJSONString s])"

fun join_comma :: "jsstring list \<Rightarrow> jsstring" where
  "join_comma [] = []"
| "join_comma [member] = member"
| "join_comma (member # members) = member @ js '','' @ join_comma members"

definition JSON_stringify :: "imageObj resolved \<Rightarrow> jsstring" where
  "JSON_stringify imageObject =
     (case imageObject of
        NoOp \<Rightarrow> js ''true''
      | Obj obj \<Rightarrow>
          js ''{''
          @ join_comma (json_property ''imageName'' (Some (imageName obj))
                        @ json_property ''imagePath'' (Some (imagePath obj))
                        @ json_property ''imageUrl'' (imageUrl obj)
                        @ json_property ''archivedImageUrl'' (archivedImageUrl obj))
          @ js ''}'')"

section \<open>appendImageUrlToStackTrace\<close>

definition newline :: jsstring where
  "newline = [0x0A]"

definition imageUrl_of :: "imageObj resolved \<Rightarrow> jsstring option" where
  "imageUrl_of imageObject = (case imageObject of NoOp \<Rightarrow> None | Obj obj \<Rightarrow> imageUrl obj)"

definition archivedImageUrl_of :: "imageObj resolved \<Rightarrow> jsstring option" where
  "archivedImageUrl_of imageObject =
     (case imageObject of NoOp \<Rightarrow> None | Obj obj \<Rightarrow> archivedImageUrl obj)"

text \<open>
  The function mutates \<open>err\<close>; the model returns \<open>err\<close> as it is afterwards. The module
  is in strict mode, where the assignment to a property of a primitive throws a TypeError.
\<close>

definition appendImageUrlToStackTrace :: "imageObj resolved \<Rightarrow> errarg \<Rightarrow> thrown + errarg" where
  "appendImageUrlToStackTrace imageObject err =
     (let output =
        (if truthy (imageUrl_of imageObject) \<or> truthy (archivedImageUrl_of imageObject) then
           newline
           @ (if truthy (imageUrl_of imageObject) then
                js ''nemo-screenshot (workspace): '' @ str (imageUrl_of imageObject) @ newline
              else [])
           @ (if truthy (archivedImageUrl_of imageObject) then
                js ''nemo-screenshot (archived): '' @ str (archivedImageUrl_of imageObject) @ newline
              else [])
         else newline @ js ''nemo-screenshot::'' @ JSON_stringify imageObject
              @ js ''::nemo-screenshot'')
      in case err of
           Err e \<Rightarrow> Inr (Err (e\<lparr>stack := Some (str (stack e) @ output)\<rparr>))
         | Undefined \<Rightarrow> Inr err
         | Null \<Rightarrow> Inr err
         | _ \<Rightarrow> if truthy_primitive err then Inl TypeError else Inr err)"

section \<open>snap, source and done\<close>

text \<open>
  Each operation returns the deferred it created, as it stands once every callback that
  will run has run, and the effects. A driver command that stays pending never runs its
  callbacks. An exception thrown inside a \<open>then\<close> callback (by \<open>mkdirp.sync\<close>, or by
  \<open>fs.writeFile\<close> before it returns) ends that callback and settles nothing: nothing in
  the module catches it.
\<close>

definition snap ::
    "world \<Rightarrow> config \<Rightarrow> jsstring \<Rightarrow> sys \<Rightarrow> (imageObj resolved, js_error) deferred \<times> sys" where
  "snap w cfg filename s =
     (let deferred = p (global_Promise w);
          s = do DriverGetSession s
      in if getSession w = Falsy then (fulfill NoOp deferred, s)
         else
           let s = do DriverTakeScreenshot s
           in case takeScreenshot w of
                Pending \<Rightarrow> (deferred, s)
              | Rejected err \<Rightarrow> (reject err deferred, s)
              | Fulfilled screenImg \<Rightarrow>
                  (let imageName = filename @ js ''.png'';
                       imageDir = path_resolve (process_cwd w) (screenShotPath cfg);
                       imageFullPath = path_join imageDir imageName
                   in case mkdirp_sync w (path_dirname imageFullPath) s of
                        (Some thrown, s) \<Rightarrow> (deferred, s)
                      | (None, s) \<Rightarrow>
                          (let imageObj = \<lparr>imageUrl = None, archivedImageUrl = None,
                                           imageName = imageName, imagePath = imageFullPath\<rparr>;
                               (imageObj, s) =
                                 (if truthy (JENKINS_URL (process_env w)) then
                                    (case formatJenkinsImageUrls (process_env w) (screenShotPath cfg) imageName of
                                       (Some imageUrls, out) \<Rightarrow>
                                         (imageObj\<lparr>imageUrl := imageUrl imageUrls,
                                                   archivedImageUrl := archivedImageUrl imageUrls\<rparr>,
                                          console_log out s)
                                     | (None, out) \<Rightarrow> (imageObj, console_log out s))
                                  else (imageObj, s))
                           in (case writeFile w imageFullPath (Base64 screenImg) s of
                                 (Written, s) \<Rightarrow> (fulfill (Obj imageObj) deferred, s)
                               | (CallbackError err, s) \<Rightarrow> (reject err deferred, s)
                               | (ThrowsSync thrown, s) \<Rightarrow> (deferred, s)))))"

text \<open>
  \<open>source\<close> first issues the script and the page-source command. The script's \<open>then\<close> has a
  fulfilment callback only, which writes the \<open>.txt\<close> file.
\<close>

definition source ::
    "world \<Rightarrow> config \<Rightarrow> jsstring \<Rightarrow> sys \<Rightarrow> (sourceObj resolved, js_error) deferred \<times> sys" where
  "source w cfg filename s =
     (let deferred = p (global_Promise w);
          s = do DriverGetSession s
      in if getSession w = Falsy then (fulfill NoOp deferred, s)
         else
           let s = do DriverExecuteScript s;
               s = do DriverGetPageSource s;
               s = (case executeScript w of
                      Fulfilled bin_str_invisiNodes \<Rightarrow>
                        (let invisinodeName = filename @ js ''.txt'';
                             folderPath = path_resolve (process_cwd w) (screenShotPath cfg);
                             filePath = path_join folderPath invisinodeName
                         in (case writeFile w filePath (Text bin_str_invisiNodes) s of
                               (Written, s) \<Rightarrow> s
                             | (CallbackError err, s) \<Rightarrow> do (ConsoleError err) s
                             | (ThrowsSync thrown, s) \<Rightarrow> s))
                    | Rejected unhandled \<Rightarrow> s
                    | Pending \<Rightarrow> s)
           in case getPageSource w of
                Pending \<Rightarrow> (deferred, s)
              | Rejected err \<Rightarrow> (reject err deferred, s)
              | Fulfilled src \<Rightarrow>
                  (let sourceName = filename @ js ''.html'';
                       sourceDir = path_resolve (process_cwd w) (screenShotPath cfg);
                       sourceFullPath = path_join sourceDir sourceName
                   in case mkdirp_sync w (path_dirname sourceFullPath) s of
                        (Some thrown, s) \<Rightarrow> (deferred, s)
                      | (None, s) \<Rightarrow>
                          (let sourceObj = \<lparr>sourceName = sourceName, sourcePath = sourceFullPath\<rparr>
                           in (case writeFile w sourceFullPath (Text src) s of
                                 (Written, s) \<Rightarrow> (fulfill (Obj sourceObj) deferred, s)
                               | (CallbackError err, s) \<Rightarrow> (reject err deferred, s)
                               | (ThrowsSync thrown, s) \<Rightarrow> (deferred, s)))))"

text \<open>
  \<open>done(filename, done, err)\<close>; the callback \<open>done\<close> is the host's, and calling it is the
  effect \<open>Callback\<close> with the argument it was given. When \<open>appendImageUrlToStackTrace\<close>
  throws, the fulfilment callback ends before it reaches the call.
\<close>

definition done_op :: "world \<Rightarrow> config \<Rightarrow> jsstring \<Rightarrow> errarg \<Rightarrow> sys \<Rightarrow> sys" where
  "done_op w cfg filename err s =
     (case snap w cfg filename s of
        (deferred, s) \<Rightarrow>
          (case promise deferred of
             Fulfilled imageObject \<Rightarrow>
               (case appendImageUrlToStackTrace imageObject err of
                  Inl thrown \<Rightarrow> s
                | Inr err \<Rightarrow> do (Callback err) s)
           | Rejected scerror \<Rightarrow>
               let s = do (ConsoleLogError (js ''nemo-screenshot encountered some error.'') scerror) s
               in do (Callback (Err scerror)) s
           | Pending \<Rightarrow> s))"

section \<open>The uncaught-exception listener\<close>

text \<open>
  A call returns \<open>None\<close> when it never comes back, and otherwise what it threw (if it
  threw), the exception object as the call left it, and the effects.
\<close>

type_synonym outcome = "(thrown option \<times> js_error \<times> sys) option"

text \<open>The host's listeners, called in turn until one throws.\<close>

fun call_listeners :: "(js_error \<Rightarrow> thrown option) list \<Rightarrow> js_error \<Rightarrow> thrown option" where
  "call_listeners [] exception = None"
| "call_listeners (listener # listeners) exception =
     (case listener exception of
        Some thrown \<Rightarrow> Some thrown
      | None \<Rightarrow> call_listeners listeners exception)"

text \<open>
  \<open>flow.emit(uncaughtException, exception)\<close>: the flow calls, before it returns, every
  listener subscribed to the event in the order of subscription, the module's own listener
  among them, and what a listener throws comes out of \<open>emit\<close>. \<open>flow_emit_before\<close> is the
  emission up to the call of the module's listener, \<open>flow_emit_after\<close> the rest of it, given
  the outcome of that call.
\<close>

definition flow_emit_before :: "world \<Rightarrow> js_error \<Rightarrow> sys \<Rightarrow> thrown option \<times> sys" where
  "flow_emit_before w exception s =
     (call_listeners (listeners_before w) exception, do (FlowEmit exception) s)"

definition flow_emit_after :: "world \<Rightarrow> thrown option \<times> js_error \<times> sys \<Rightarrow> outcome" where
  "flow_emit_after w =
     (\<lambda>(thrown, exception, s).
        case thrown of
          Some thrown \<Rightarrow> Some (Some thrown, exception, s)
        | None \<Rightarrow> Some (call_listeners (listeners_after w) exception, exception, s))"

text \<open>
  The callbacks that the listener gives to the promise of \<open>getSession()\<close>. The \<open>then\<close>
  callback throws the exception when the session is falsy, and the \<open>catch\<close> that follows
  receives what that callback threw or what the promise was rejected with. Every callback
  that emits does so as its last statement; the result says whether the callbacks end with
  \<open>flow.emit(uncaughtException, exception)\<close>, and gives the exception object and the
  effects up to there.
\<close>

definition getSession_callbacks ::
    "world \<Rightarrow> config \<Rightarrow> jsstring option \<Rightarrow> (bool, js_error) settled \<Rightarrow> js_error \<Rightarrow> sys \<Rightarrow>
       bool \<times> js_error \<times> sys" where
  "getSession_callbacks w cfg currentTestTitle reply exception s =
     (case reply of
        Pending \<Rightarrow> (False, exception, s)
      | Rejected e \<Rightarrow> (True, exception, s)
      | Fulfilled session \<Rightarrow>
          (if session then
             (let filename = js ''ScreenShot_onException-'' @ process_pid w @ js ''-'' @ Date_now w;
                  testTitle = currentTestTitle;
                  filename = (if truthy testTitle then titleSlug testTitle else filename);
                  s = (if js ''source'' \<in> set (autoCaptureOptions cfg)
                       then snd (source w cfg filename s) else s)
              in (case snap w cfg filename s of
                    (deferred, s) \<Rightarrow>
                      (case promise deferred of
                         Fulfilled imageObject \<Rightarrow>
                           (case appendImageUrlToStackTrace imageObject (Err exception) of
                              Inr (Err exception) \<Rightarrow> (True, exception, s)
                            | _ \<Rightarrow> (False, exception, s))
                       | Rejected unhandled \<Rightarrow> (False, exception, s)
                       | Pending \<Rightarrow> (False, exception, s))))
           else (True, exception, s)))"

text \<open>
  The listener that \<open>setup\<close> subscribes to the control flow's uncaught-exception event when
  the options contain \<open>exception\<close>. \<open>depth\<close> is the number of nested listener calls for
  which the call stack still has room; with none left the call ends in a RangeError.

  The guard emits on the flow to which the listener itself is subscribed, so the flow calls
  the listener again, one call deeper, before \<open>emit\<close> returns; the guard has no \<open>return\<close>,
  and the statements after it run if \<open>emit\<close> returns. Calling \<open>then\<close> on a falsy reply of
  \<open>getSession()\<close> throws a TypeError. The callbacks run later, on an empty stack, and what
  their emission throws is the rejection of a promise that nothing handles.
\<close>

partial_function (option) uncaughtException_listener ::
    "nat \<Rightarrow> world \<Rightarrow> config \<Rightarrow> jsstring option \<Rightarrow> js_error \<Rightarrow> sys \<Rightarrow>
       (thrown option \<times> js_error \<times> sys) option" where
  "uncaughtException_listener depth w cfg currentTestTitle exception s =
     (case depth of
        0 \<Rightarrow> Some (Some RangeError, exception, s)
      | Suc room \<Rightarrow>
          Option.bind
            (if nemoScreenshotHandled exception then
               (case flow_emit_before w exception s of
                  (Some thrown, s) \<Rightarrow> Some (Some thrown, exception, s)
                | (None, s) \<Rightarrow>
                    Option.bind (uncaughtException_listener room w cfg currentTestTitle exception s)
                      (\<lambda>returned. flow_emit_after w returned))
             else Some (None, exception, s))
            (\<lambda>(thrown, exception, s).
               case thrown of
                 Some thrown \<Rightarrow> Some (Some thrown, exception, s)
               | None \<Rightarrow>
                   (let exception = exception\<lparr>nemoScreenshotHandled := True\<rparr>;
                        s = do DriverGetSession s
                    in case getSession w of
                         Falsy \<Rightarrow> Some (Some TypeError, exception, s)
                       | Thenable reply \<Rightarrow>
                           (case getSession_callbacks w cfg currentTestTitle reply exception s of
                              (emits, exception, s) \<Rightarrow>
                                if emits then
                                  Option.bind
                                    (case flow_emit_before w exception s of
                                       (Some thrown, s) \<Rightarrow> Some (Some thrown, exception, s)
                                     | (None, s) \<Rightarrow>
                                         Option.bind
                                           (uncaughtException_listener (stack_room w) w cfg
                                              currentTestTitle exception s)
                                           (\<lambda>returned. flow_emit_after w returned))
                                    (\<lambda>(unhandled, exception, s). Some (None, exception, s))
                                else Some (None, exception, s)))))"

declare uncaughtException_listener.simps [code]

section \<open>Vocabulary of the properties\<close>

definition is_callback :: "effect \<Rightarrow> bool" where
  "is_callback ef = (case ef of Callback _ \<Rightarrow> True | _ \<Rightarrow> False)"

definition is_console :: "effect \<Rightarrow> bool" where
  "is_console ef =
     (case ef of ConsoleLog _ \<Rightarrow> True | ConsoleLogError _ _ \<Rightarrow> True | ConsoleError _ \<Rightarrow> True
      | _ \<Rightarrow> False)"

text \<open>
  A segment that normalisation keeps (neither empty nor \<open>.\<close>), and one that may stand in a
  normalised absolute path.
\<close>

definition kept :: "jsstring \<Rightarrow> bool" where
  "kept seg \<longleftrightarrow> seg \<noteq> [] \<and> seg \<noteq> js ''.''"

definition clean :: "jsstring \<Rightarrow> bool" where
  "clean seg \<longleftrightarrow> kept seg \<and> seg \<noteq> js ''..'' \<and> slash \<notin> set seg"

subsection \<open>Concrete hosts\<close>

text \<open>
  An error object, the state before anything happened, and a configuration that captures
  on exceptions into \<open>/w/report\<close>. \<open>host\<close> has a live session; every command and every
  file-system call succeeds on it, outside Jenkins, with the working directory \<open>/w\<close>, and no
  listener but the module's is subscribed. The other hosts differ from it in one outcome.
\<close>

definition boom :: js_error where
  "boom = \<lparr>message = js ''boom'', stack = Some (js ''Error: boom''), nemoScreenshotHandled = False\<rparr>"

definition fresh :: sys where
  "fresh = \<lparr>files = Map.empty, trace = []\<rparr>"

definition report_cfg :: config where
  "report_cfg = \<lparr>screenShotPath = js ''/w/report'', autoCaptureOptions = [js ''exception'']\<rparr>"

definition host :: world where
  "host = \<lparr>global_Promise = True,
            getSession = Thenable (Fulfilled True),
            takeScreenshot = Fulfilled (js ''aGk=''),
            getPageSource = Fulfilled (js ''<html></html>''),
            executeScript = Fulfilled (js ''[]''),
            mkdirp_error = (\<lambda>dir. None),
            writeFile_outcome = (\<lambda>path. Written),
            process_env = \<lparr>JENKINS_URL = None, BUILD_URL = None, JOB_NAME = None, WORKSPACE = None\<rparr>,
            process_cwd = js ''/w'',
            process_pid = js ''4242'',
            Date_now = js ''1700000000000'',
            stack_room = 3,
            listeners_before = [],
            listeners_after = []\<rparr>"



section \<open>Basic facts\<close>

lemma js_append: "js a @ js b = js (a @ b)"
  by (simp add: js_def)

lemma trace_do [simp]: "trace (do ef s) = trace s @ [ef]"
  by (simp add: do_def)

lemma files_do [simp]: "files (do ef s) = files s"
  by (simp add: do_def)

lemma trace_console_log [simp]: "trace (console_log out s) = trace s @ map ConsoleLog out"
  unfolding console_log_def by (induction out arbitrary: s) simp_all

lemma files_console_log [simp]: "files (console_log out s) = files s"
  unfolding console_log_def by (induction out arbitrary: s) simp_all

lemma promise_p [simp]: "promise (p b) = Pending"
  by (simp add: p_def promise_def cell_of_def Let_def)

lemma promise_fulfill_p [simp]: "promise (fulfill v (p b)) = Fulfilled v"
  by (simp add: p_def promise_def cell_of_def fulfill_def settle_at_def settle_def Let_def)

lemma promise_reject_p [simp]: "promise (reject e (p b)) = Rejected e"
  by (simp add: p_def promise_def cell_of_def reject_def settle_at_def settle_def Let_def)

section \<open>The promise shim settles once\<close>

lemma call_p_first: "promise (call c (p b)) = outcome_of c"
  by (cases c) simp_all

lemma call_after_call:
  "call c' (call c (p b)) = call c (p b)"
  by (cases c; cases c'; cases b)
    (simp_all add: p_def fulfill_def reject_def settle_at_def settle_def Let_def)

lemma calls_after_call: "calls cs (call c (p b)) = call c (p b)"
  by (induction cs) (simp_all add: call_after_call)

text \<open>
  C9. The pair returned by \<open>p\<close> starts pending; whatever sequence of \<open>fulfill\<close> and
  \<open>reject\<close> calls follows, the awaitable holds the outcome of the first call, and every
  later call leaves the whole pair as the first call left it. This holds with the native
  \<open>Promise\<close> (\<open>native = True\<close>) and with the driver's deferred alone
  (\<open>native = False\<close>).
\<close>

theorem p_settles_once:
  "promise (p native) = Pending \<and>
   promise (calls (c # cs) (p native)) = outcome_of c \<and>
   calls (c # cs) (p native) = call c (p native)"
  by (simp add: calls_after_call call_p_first)

section \<open>titleSlug\<close>

lemma trim_decomp:
  "\<exists>l r. s = l @ trim s @ r \<and> list_all isWhiteSpace l \<and> list_all isWhiteSpace r"
proof -
  let ?l = "takeWhile isWhiteSpace s"
  let ?m = "dropWhile isWhiteSpace s"
  let ?r = "rev (takeWhile isWhiteSpace (rev ?m))"
  have "rev ?m = takeWhile isWhiteSpace (rev ?m) @ dropWhile isWhiteSpace (rev ?m)"
    by simp
  then have "?m = trim s @ ?r"
    unfolding trim_def by (metis rev_append rev_rev_ident)
  then have "s = ?l @ trim s @ ?r"
    by (metis takeWhile_dropWhile_id)
  moreover have "list_all isWhiteSpace ?l"
    by (simp add: list_all_iff) (meson set_takeWhileD)
  moreover have "list_all isWhiteSpace ?r"
    by (simp add: list_all_iff) (meson set_takeWhileD)
  ultimately show ?thesis by blast
qed

lemma trim_ends:
  assumes "trim s \<noteq> []"
  shows "\<not> isWhiteSpace (hd (trim s))" and "\<not> isWhiteSpace (last (trim s))"
proof -
  let ?m = "dropWhile isWhiteSpace s"
  let ?t = "dropWhile isWhiteSpace (rev ?m)"
  have t: "?t \<noteq> []" using assms by (simp add: trim_def)
  have "last (trim s) = hd ?t" using t by (simp add: trim_def last_rev)
  then show "\<not> isWhiteSpace (last (trim s))" using hd_dropWhile [OF t] by simp
  have m: "?m \<noteq> []"
  proof
    assume "?m = []"
    then have "?t = []" by (simp only: rev.simps dropWhile.simps)
    with t show False by contradiction
  qed
  have "rev ?m = takeWhile isWhiteSpace (rev ?m) @ ?t" by simp
  then have "last (rev ?m) = last ?t" using t by (metis last_appendR)
  then have "hd (trim s) = hd ?m" using t m by (simp add: trim_def hd_rev last_rev)
  then show "\<not> isWhiteSpace (hd (trim s))" using hd_dropWhile [OF m] by simp
qed

lemma substring_from_0: "substring 0 n s = take n s"
  by (simp add: substring_def Let_def min_def)

lemma titleSlug_Some:
  "titleSlug (Some title) = take 251 (map (\<lambda>c. if isWordChar c then c else 0x5F) (trim title))"
  by (cases "title = []")
    (simp_all add: titleSlug_def truthy_def str_def substring_from_0 replace_nonword_def trim_def js_def)

lemma titleSlug_word_chars: "list_all isWordChar (titleSlug title)"
proof (cases title)
  case None
  then show ?thesis by (simp add: titleSlug_def truthy_def js_def)
next
  case (Some t)
  have "\<forall>c \<in> set (map (\<lambda>c. if isWordChar c then c else 0x5F) (trim t)). isWordChar c"
    by (auto simp: isWordChar_def)
  then show ?thesis
    unfolding Some titleSlug_Some list_all_iff by (meson in_set_takeD)
qed

text \<open>
  C4. For every title, the slug is the trimmed title with every non-word code unit replaced
  by an underscore, cut to its first 251 code units: the trimmed title is the title without
  a prefix and a suffix of white space, and neither starts nor ends with white space; the
  slug has at most 251 code units, all of them word characters; \<open>My Test: Case #1\<close> gives
  \<open>My_Test__Case__1\<close>.
\<close>

theorem titleSlug_trims_replaces_truncates:
  "titleSlug (Some title) =
     take 251 (map (\<lambda>c. if isWordChar c then c else 0x5F) (trim title)) \<and>
   (\<exists>l r. title = l @ trim title @ r \<and> list_all isWhiteSpace l \<and> list_all isWhiteSpace r) \<and>
   (trim title \<noteq> [] \<longrightarrow>
      \<not> isWhiteSpace (hd (trim title)) \<and> \<not> isWhiteSpace (last (trim title))) \<and>
   length (titleSlug (Some title)) \<le> 251 \<and>
   list_all isWordChar (titleSlug (Some title)) \<and>
   titleSlug (Some (js ''My Test: Case #1'')) = js ''My_Test__Case__1''"
proof -
  have "titleSlug (Some (js ''My Test: Case #1'')) = js ''My_Test__Case__1''"
    by (simp add: titleSlug_Some trim_def isWhiteSpace_def isWordChar_def js_def)
  moreover have "length (titleSlug (Some title)) \<le> 251"
    by (simp add: titleSlug_Some)
  ultimately show ?thesis
    using titleSlug_Some trim_decomp trim_ends titleSlug_word_chars by blast
qed

theorem titleSlug_witness:
  "trim (js '' a test  '') \<noteq> [] \<and>
   \<not> isWhiteSpace (hd (trim (js '' a test  ''))) \<and>
   \<not> isWhiteSpace (last (trim (js '' a test  ''))) \<and>
   titleSlug (Some (js '' a test  '')) = js ''a_test''"
proof -
  have t: "trim (js '' a test  '') = js ''a test''"
    by (simp add: trim_def isWhiteSpace_def js_def)
  have h: "trim (js '' a test  '') \<noteq> []"
    by (simp add: t) (simp add: js_def)
  have "titleSlug (Some (js '' a test  '')) = js ''a_test''"
    using titleSlug_trims_replaces_truncates [of "js '' a test  ''"]
    by (simp add: t) (simp add: isWordChar_def js_def)
  then show ?thesis
    using h titleSlug_trims_replaces_truncates [of "js '' a test  ''"] by blast
qed

section \<open>formatJenkinsImageUrls\<close>

text \<open>
  C5. With the workspace \<open>/w\<close>, the base path \<open>/w/report\<close>, the image name \<open>x.png\<close>, the job
  \<open>myjob\<close>, the Jenkins URL \<open>http://ci/\<close> and no build URL, the result has the image URL
  \<open>http://ci/job/myjob/ws/report/x.png\<close> and no archived image URL. With the workspace
  variable unset the result is \<open>null\<close>, whatever the other variables and arguments are.
\<close>

theorem formatJenkinsImageUrls_example_and_unset_workspace:
  "fst (formatJenkinsImageUrls
          \<lparr>JENKINS_URL = Some (js ''http://ci/''), BUILD_URL = None,
            JOB_NAME = Some (js ''myjob''), WORKSPACE = Some (js ''/w'')\<rparr>
          (js ''/w/report'') (js ''x.png'')) =
     Some \<lparr>imageUrl = Some (js ''http://ci/job/myjob/ws/report/x.png''), archivedImageUrl = None\<rparr> \<and>
   fst (formatJenkinsImageUrls
          \<lparr>JENKINS_URL = jenkinsUrl, BUILD_URL = buildUrl, JOB_NAME = jobName, WORKSPACE = None\<rparr>
          path name) = None"
  by (simp add: formatJenkinsImageUrls_def truthy_def str_def substr_def js_def)

section \<open>snap and done\<close>

lemma snap_no_callback:
  "filter is_callback (trace (snd (snap w cfg filename s))) = filter is_callback (trace s)"
  by (simp add: snap_def Let_def is_callback_def mkdirp_sync_def writeFile_def
      split: settled.splits option.splits prod.splits write_outcome.splits)

lemma snap_outside_jenkins:
  assumes "getSession w \<noteq> Falsy" and "takeScreenshot w = Fulfilled screenImg"
    and "\<not> truthy (JENKINS_URL (process_env w))"
    and "imageFullPath =
           path_join (path_resolve (process_cwd w) (screenShotPath cfg)) (filename @ js ''.png'')"
    and "mkdirp_error w (path_dirname imageFullPath) = None"
    and "writeFile_outcome w imageFullPath = Written"
  shows "promise (fst (snap w cfg filename s)) =
           Fulfilled (Obj \<lparr>imageUrl = None, archivedImageUrl = None,
                            imageName = filename @ js ''.png'', imagePath = imageFullPath\<rparr>)"
    and "files (snd (snap w cfg filename s)) = (files s)(imageFullPath \<mapsto> Base64 screenImg)"
    and "trace (snd (snap w cfg filename s)) =
           trace s @ [DriverGetSession, DriverTakeScreenshot,
                      MkdirpSync (path_dirname imageFullPath), FsWriteFile imageFullPath]"
  using assms by (simp_all add: snap_def Let_def mkdirp_sync_def writeFile_def)

lemma report_dir: "path_resolve (js ''/w'') (js ''/w/report'') = js ''/w/report''"
  by (simp add: path_resolve_def normalizeString_def norm_step_def js_def slash_def)

lemma shot_path: "path_join (js ''/w/report'') (js ''shot.png'') = js ''/w/report/shot.png''"
  by (simp add: path_join_def path_normalize_def normalizeString_def norm_step_def js_def slash_def)

lemma shot_dir: "path_dirname (js ''/w/report/shot.png'') = js ''/w/report''"
  by (simp add: path_dirname_def js_def slash_def)



text \<open>The callback calls of \<open>done\<close>, for every outcome of \<open>snap\<close>.\<close>

lemma done_op_callbacks:
  "filter is_callback (trace (done_op w cfg filename err s)) =
     filter is_callback (trace s) @
       (case promise (fst (snap w cfg filename s)) of
          Fulfilled imageObject \<Rightarrow>
            (case appendImageUrlToStackTrace imageObject err of
               Inl thrown \<Rightarrow> []
             | Inr annotated \<Rightarrow> [Callback annotated])
        | Rejected scerror \<Rightarrow> [Callback (Err scerror)]
        | Pending \<Rightarrow> [])"
proof -
  obtain deferred s' where sn: "snap w cfg filename s = (deferred, s')"
    by (cases "snap w cfg filename s")
  have nc: "filter is_callback (trace s') = filter is_callback (trace s)"
    using snap_no_callback [of w cfg filename s] sn by simp
  show ?thesis
    by (simp add: done_op_def sn nc Let_def is_callback_def split: settled.splits sum.splits)
qed



lemma host_facts:
  "getSession host \<noteq> Falsy" "takeScreenshot host = Fulfilled (js ''aGk='')"
  "\<not> truthy (JENKINS_URL (process_env host))"
  "mkdirp_error host dir = None" "writeFile_outcome host path = Written"
  "process_cwd host = js ''/w''"
  by (simp_all add: host_def truthy_def)

lemma host_snap_shot:
  "promise (fst (snap host report_cfg (js ''shot'') fresh)) =
     Fulfilled (Obj \<lparr>imageUrl = None, archivedImageUrl = None,
                      imageName = js ''shot.png'', imagePath = js ''/w/report/shot.png''\<rparr>)"
proof -
  have pth: "js ''/w/report/shot.png'' =
      path_join (path_resolve (process_cwd host) (screenShotPath report_cfg)) (js ''shot'' @ js ''.png'')"
    by (simp add: host_facts report_cfg_def report_dir shot_path js_append)
  show ?thesis
    using snap_outside_jenkins(1) [OF host_facts(1,2,3) pth host_facts(4,5)]
    by (simp add: js_append)
qed

text \<open>
  C2. When \<open>getSession()\<close> is falsy, \<open>snap\<close> touches no file and makes no file-system
  call: its only effect is the session query, and its awaitable is fulfilled with the no-op
  value \<open>true\<close>.
\<close>

theorem snap_no_session:
  "getSession w = Falsy \<Longrightarrow>
     promise (fst (snap w cfg filename s)) = Fulfilled NoOp \<and>
     snd (snap w cfg filename s) = do DriverGetSession s \<and>
     files (snd (snap w cfg filename s)) = files s \<and>
     filter is_fs_effect (trace (snd (snap w cfg filename s))) = filter is_fs_effect (trace s)"
  by (simp add: snap_def Let_def is_fs_effect_def)

theorem snap_no_session_witness:
  "getSession (host\<lparr>getSession := Falsy\<rparr>) = Falsy \<and>
   promise (fst (snap (host\<lparr>getSession := Falsy\<rparr>) report_cfg (js ''shot'') fresh)) = Fulfilled NoOp \<and>
   files (snd (snap (host\<lparr>getSession := Falsy\<rparr>) report_cfg (js ''shot'') fresh)) = Map.empty \<and>
   trace (snd (snap (host\<lparr>getSession := Falsy\<rparr>) report_cfg (js ''shot'') fresh)) = [DriverGetSession]"
proof -
  have h: "getSession (host\<lparr>getSession := Falsy\<rparr>) = Falsy" by simp
  show ?thesis
    using h snap_no_session [OF h, of report_cfg "js ''shot''" fresh] by (simp add: fresh_def)
qed







text \<open>
  C10. When the error argument of \<open>done\<close> is \<open>undefined\<close> or \<open>null\<close> and \<open>snap\<close> is
  fulfilled, the annotation step changes nothing and the callback is called exactly once,
  with that same falsy value.
\<close>

theorem done_falsy_error:
  "promise (fst (snap w cfg filename s)) = Fulfilled imageObject \<Longrightarrow>
   err = Undefined \<or> err = Null \<Longrightarrow>
     appendImageUrlToStackTrace imageObject err = Inr err \<and>
     filter is_callback (trace (done_op w cfg filename err s)) =
       filter is_callback (trace s) @ [Callback err]"
proof -
  assume a: "promise (fst (snap w cfg filename s)) = Fulfilled imageObject"
    and f: "err = Undefined \<or> err = Null"
  have ap: "appendImageUrlToStackTrace imageObject err = Inr err"
    using f by (auto simp: appendImageUrlToStackTrace_def Let_def)
  show ?thesis using a ap
    by (simp add: done_op_callbacks)
qed

theorem done_falsy_error_witness:
  "promise (fst (snap host report_cfg (js ''shot'') fresh)) =
     Fulfilled (Obj \<lparr>imageUrl = None, archivedImageUrl = None,
                      imageName = js ''shot.png'', imagePath = js ''/w/report/shot.png''\<rparr>) \<and>
   (Null = Undefined \<or> Null = Null) \<and>
   filter is_callback (trace (done_op host report_cfg (js ''shot'') Null fresh)) = [Callback Null]"
proof -
  have f: "Null = Undefined \<or> Null = Null" by simp
  show ?thesis
    using host_snap_shot done_falsy_error [OF host_snap_shot f] by (simp add: fresh_def)
qed

section \<open>source\<close>

lemma source_promise_ignores_script:
  "promise (fst (source (w\<lparr>executeScript := outcome\<rparr>) cfg filename s)) =
     promise (fst (source w cfg filename s))"
  by (simp add: source_def Let_def mkdirp_sync_def writeFile_def
      split: settled.splits option.splits prod.splits write_outcome.splits)

lemma source_txt_write_failure_logged:
  "getSession w \<noteq> Falsy \<Longrightarrow> executeScript w = Fulfilled bin \<Longrightarrow>
   writeFile_outcome w (path_join (path_resolve (process_cwd w) (screenShotPath cfg))
                                  (filename @ js ''.txt'')) = CallbackError err \<Longrightarrow>
     ConsoleError err \<in> set (trace (snd (source w cfg filename s)))"
  by (simp add: source_def Let_def mkdirp_sync_def writeFile_def
      split: settled.splits option.splits prod.splits write_outcome.splits)

text \<open>
  C8. What the code does when the script fails: a rejected \<open>executeScript\<close> adds no
  console output at all (the \<open>then\<close> has no rejection callback, unlike the write of the
  \<open>.txt\<close> file, whose error is logged); the awaitable of \<open>source\<close> is the one it would be with
  any other outcome of the script.
\<close>

theorem source_script_failure_not_logged:
  "filter is_console (trace (snd (source (w\<lparr>executeScript := Rejected err\<rparr>) cfg filename s))) =
     filter is_console (trace s) \<and>
   promise (fst (source (w\<lparr>executeScript := Rejected err\<rparr>) cfg filename s)) =
     promise (fst (source w cfg filename s))"
  by (simp add: source_def Let_def mkdirp_sync_def writeFile_def is_console_def
      split: settled.splits option.splits prod.splits write_outcome.splits)

section \<open>The listener on an exception already handled\<close>

lemma listener_0:
  "uncaughtException_listener 0 w cfg title exception s = Some (Some RangeError, exception, s)"
  by (subst uncaughtException_listener.simps) simp

text \<open>
  With the marker set, the listener never gets past its guard: each call emits and is
  called again by the flow, until a listener of the host throws or the stack is exhausted.
\<close>

lemma listener_handled:
  assumes "nemoScreenshotHandled exception"
  shows "\<exists>thrown k. uncaughtException_listener (Suc room) w cfg title exception s =
           Some (Some thrown, exception,
                 s\<lparr>trace := trace s @ FlowEmit exception # replicate k (FlowEmit exception)\<rparr>)"
proof (induction room arbitrary: s)
  case 0
  show ?case
  proof (cases "call_listeners (listeners_before w) exception")
    case None
    then have "uncaughtException_listener (Suc 0) w cfg title exception s =
        Some (Some RangeError, exception,
              s\<lparr>trace := trace s @ FlowEmit exception # replicate 0 (FlowEmit exception)\<rparr>)"
      using assms
      by (subst uncaughtException_listener.simps)
        (simp add: flow_emit_before_def flow_emit_after_def listener_0 do_def)
    then show ?thesis by blast
  next
    case (Some thrown)
    then have "uncaughtException_listener (Suc 0) w cfg title exception s =
        Some (Some thrown, exception,
              s\<lparr>trace := trace s @ FlowEmit exception # replicate 0 (FlowEmit exception)\<rparr>)"
      using assms
      by (subst uncaughtException_listener.simps) (simp add: flow_emit_before_def do_def)
    then show ?thesis by blast
  qed
next
  case (Suc room)
  show ?case
  proof (cases "call_listeners (listeners_before w) exception")
    case None
    obtain thrown k where inner:
      "uncaughtException_listener (Suc room) w cfg title exception
         (s\<lparr>trace := trace s @ [FlowEmit exception]\<rparr>) =
         Some (Some thrown, exception,
               s\<lparr>trace := trace s @ FlowEmit exception # FlowEmit exception
                            # replicate k (FlowEmit exception)\<rparr>)"
      using Suc.IH [of "s\<lparr>trace := trace s @ [FlowEmit exception]\<rparr>"] by auto
    have "uncaughtException_listener (Suc (Suc room)) w cfg title exception s =
        Some (Some thrown, exception,
              s\<lparr>trace := trace s @ FlowEmit exception # replicate (Suc k) (FlowEmit exception)\<rparr>)"
      using assms None
      by (subst uncaughtException_listener.simps)
        (simp add: flow_emit_before_def flow_emit_after_def do_def inner)
    then show ?thesis by blast
  next
    case (Some thrown)
    then have "uncaughtException_listener (Suc (Suc room)) w cfg title exception s =
        Some (Some thrown, exception,
              s\<lparr>trace := trace s @ FlowEmit exception # replicate 0 (FlowEmit exception)\<rparr>)"
      using assms
      by (subst uncaughtException_listener.simps) (simp add: flow_emit_before_def do_def)
    then show ?thesis by blast
  qed
qed

text \<open>
  When no listener of the host is subscribed before the module's, the pass uses up the
  stack: with room for \<open>depth\<close> nested calls it emits \<open>depth\<close> times and ends with the
  RangeError. On \<open>host\<close> that is three emissions.
\<close>

lemma listener_handled_exhausts_stack:
  assumes "nemoScreenshotHandled exception" and "listeners_before w = []"
  shows "uncaughtException_listener depth w cfg title exception s =
           Some (Some RangeError, exception,
                 s\<lparr>trace := trace s @ replicate depth (FlowEmit exception)\<rparr>)"
proof (induction depth arbitrary: s)
  case 0
  show ?case by (simp add: listener_0)
next
  case (Suc depth)
  have inner: "uncaughtException_listener depth w cfg title exception
         (s\<lparr>trace := trace s @ [FlowEmit exception]\<rparr>) =
       Some (Some RangeError, exception,
             s\<lparr>trace := trace s @ FlowEmit exception # replicate depth (FlowEmit exception)\<rparr>)"
    using Suc.IH [of "s\<lparr>trace := trace s @ [FlowEmit exception]\<rparr>"] by simp
  show ?case
    using assms
    by (subst uncaughtException_listener.simps)
      (simp add: flow_emit_before_def flow_emit_after_def do_def inner)
qed

lemma listener_second_pass_on_host:
  "uncaughtException_listener 3 host report_cfg title (boom\<lparr>nemoScreenshotHandled := True\<rparr>) fresh =
     Some (Some RangeError, boom\<lparr>nemoScreenshotHandled := True\<rparr>,
           \<lparr>files = Map.empty,
             trace = [FlowEmit (boom\<lparr>nemoScreenshotHandled := True\<rparr>),
                      FlowEmit (boom\<lparr>nemoScreenshotHandled := True\<rparr>),
                      FlowEmit (boom\<lparr>nemoScreenshotHandled := True\<rparr>)]\<rparr>)"
proof -
  have "listeners_before host = []" by (simp add: host_def)
  then show ?thesis
    by (simp add: listener_handled_exhausts_stack fresh_def numeral_3_eq_3)
qed

lemma getSession_callbacks_keep_marker:
  assumes "getSession_callbacks w cfg title reply exception s = (emits, exception', s')"
  shows "nemoScreenshotHandled exception' = nemoScreenshotHandled exception"
proof -
  have "nemoScreenshotHandled (fst (snd (getSession_callbacks w cfg title reply exception s))) =
      nemoScreenshotHandled exception"
    by (auto simp: getSession_callbacks_def Let_def appendImageUrlToStackTrace_def
        split: settled.splits prod.splits sum.splits errarg.splits)
  then show ?thesis by (simp add: assms)
qed

text \<open>The listener returns for every input: no call of it is left without an outcome.\<close>

lemma listener_returns:
  "\<exists>thrown exception' s'.
     uncaughtException_listener depth w cfg title exception s = Some (thrown, exception', s')"
proof (cases depth)
  case 0
  then show ?thesis by (simp add: listener_0)
next
  case (Suc room)
  have emission: "\<exists>r. (case flow_emit_before w e t of
                         (Some thrown, t') \<Rightarrow> Some (Some thrown, e, t')
                       | (None, t') \<Rightarrow>
                           Option.bind (uncaughtException_listener d w cfg title e t')
                             (\<lambda>returned. flow_emit_after w returned)) = Some r"
    if marked: "nemoScreenshotHandled e" for e t d
  proof (cases "call_listeners (listeners_before w) e")
    case None
    have "\<exists>thrown rest. uncaughtException_listener d w cfg title e (do (FlowEmit e) t) =
        Some (Some thrown, e, rest)"
    proof (cases d)
      case 0
      then show ?thesis by (simp add: listener_0)
    next
      case (Suc room)
      then show ?thesis
        using listener_handled [OF marked, of room w cfg title "do (FlowEmit e) t"] by blast
    qed
    then obtain thrown rest where
      "uncaughtException_listener d w cfg title e (do (FlowEmit e) t) = Some (Some thrown, e, rest)"
      by blast
    then show ?thesis by (simp add: flow_emit_before_def flow_emit_after_def None)
  qed (simp add: flow_emit_before_def)
  show ?thesis
  proof (cases "nemoScreenshotHandled exception")
    case True
    obtain thrown k where "uncaughtException_listener (Suc room) w cfg title exception s =
        Some (Some thrown, exception,
              s\<lparr>trace := trace s @ FlowEmit exception # replicate k (FlowEmit exception)\<rparr>)"
      using listener_handled [OF True] by blast
    then show ?thesis by (simp add: Suc)
  next
    case False
    show ?thesis
    proof (cases "getSession w")
      case Falsy
      then show ?thesis
        using False by (subst uncaughtException_listener.simps) (simp add: Suc Let_def)
    next
      case (Thenable reply)
      obtain emits e' s' where cb:
        "getSession_callbacks w cfg title reply (exception\<lparr>nemoScreenshotHandled := True\<rparr>)
           (do DriverGetSession s) = (emits, e', s')"
        by (cases "getSession_callbacks w cfg title reply (exception\<lparr>nemoScreenshotHandled := True\<rparr>)
           (do DriverGetSession s)") auto
      have "nemoScreenshotHandled e'"
        using getSession_callbacks_keep_marker [OF cb] by simp
      from emission [OF this, where t = s' and d = "stack_room w"] obtain r where
        "(case flow_emit_before w e' s' of
            (Some thrown, t') \<Rightarrow> Some (Some thrown, e', t')
          | (None, t') \<Rightarrow>
              Option.bind (uncaughtException_listener (stack_room w) w cfg title e' t')
                (\<lambda>returned. flow_emit_after w returned)) = Some r" by blast
      then show ?thesis
        using False Thenable cb
        by (subst uncaughtException_listener.simps)
          (cases r, simp add: Suc Let_def)
    qed
  qed
qed

text \<open>
  A first pass on \<open>host\<close>, with the test title \<open>shot\<close>: the listener marks the exception,
  captures once, annotates the exception and emits it from the callback of \<open>snap\<close>; the
  flow calls the listener again with it, and the three nested passes for which the stack has
  room only emit. What the emission throws is not handled by anything.
\<close>

lemma do_record: "do ef \<lparr>files = f, trace = t\<rparr> = \<lparr>files = f, trace = t @ [ef]\<rparr>"
  by (simp add: do_def)

lemma snap_outside_jenkins_state:
  assumes "getSession w \<noteq> Falsy" and "takeScreenshot w = Fulfilled screenImg"
    and "\<not> truthy (JENKINS_URL (process_env w))"
    and "imageFullPath =
           path_join (path_resolve (process_cwd w) (screenShotPath cfg)) (filename @ js ''.png'')"
    and "mkdirp_error w (path_dirname imageFullPath) = None"
    and "writeFile_outcome w imageFullPath = Written"
  shows "snd (snap w cfg filename s) =
           s\<lparr>files := (files s)(imageFullPath \<mapsto> Base64 screenImg),
              trace := trace s @ [DriverGetSession, DriverTakeScreenshot,
                         MkdirpSync (path_dirname imageFullPath), FsWriteFile imageFullPath]\<rparr>"
  using assms by (simp add: snap_def Let_def mkdirp_sync_def writeFile_def do_def)

lemma listener_first_pass_on_host:
  \<open>uncaughtException_listener 1 host report_cfg (Some (js ''shot'')) boom fresh =
     Some (None,
           boom\<lparr>nemoScreenshotHandled := True,
                 stack := Some (js ''Error: boom'' @ newline @
                   js ''nemo-screenshot::{"imageName":"shot.png","imagePath":"/w/report/shot.png"}::nemo-screenshot'')\<rparr>,
           \<lparr>files = [js ''/w/report/shot.png'' \<mapsto> Base64 (js ''aGk='')],
             trace = [DriverGetSession, DriverGetSession, DriverTakeScreenshot,
                      MkdirpSync (js ''/w/report''), FsWriteFile (js ''/w/report/shot.png'')]
                     @ replicate 4 (FlowEmit (boom\<lparr>nemoScreenshotHandled := True,
                         stack := Some (js ''Error: boom'' @ newline @
                           js ''nemo-screenshot::{"imageName":"shot.png","imagePath":"/w/report/shot.png"}::nemo-screenshot'')\<rparr>))\<rparr>)\<close>
proof -
  let ?obj = "Obj \<lparr>imageUrl = None, archivedImageUrl = None,
                    imageName = js ''shot.png'', imagePath = js ''/w/report/shot.png''\<rparr>"
  let ?marked = "boom\<lparr>nemoScreenshotHandled := True\<rparr>"
  let ?s1 = "do DriverGetSession fresh"
  have slug: "titleSlug (Some (js ''shot'')) = js ''shot''"
    by (simp add: titleSlug_Some trim_def isWhiteSpace_def isWordChar_def js_def)
  have pth: "js ''/w/report/shot.png'' =
      path_join (path_resolve (process_cwd host) (screenShotPath report_cfg)) (js ''shot'' @ js ''.png'')"
    by (simp add: host_facts report_cfg_def report_dir shot_path js_append)
  have sn: "promise (fst (snap host report_cfg (js ''shot'') ?s1)) = Fulfilled ?obj"
    "snd (snap host report_cfg (js ''shot'') ?s1) =
       \<lparr>files = [js ''/w/report/shot.png'' \<mapsto> Base64 (js ''aGk='')],
         trace = [DriverGetSession, DriverGetSession, DriverTakeScreenshot,
                  MkdirpSync (js ''/w/report''), FsWriteFile (js ''/w/report/shot.png'')]\<rparr>"
    using snap_outside_jenkins(1) [OF host_facts(1,2,3) pth host_facts(4,5), of ?s1]
      snap_outside_jenkins_state [OF host_facts(1,2,3) pth host_facts(4,5), of ?s1]
    by (simp_all add: js_append shot_dir fresh_def do_def)
  have json: \<open>JSON_stringify ?obj = js ''{"imageName":"shot.png","imagePath":"/w/report/shot.png"}''\<close>
    by (simp add: JSON_stringify_def json_property_def QuoteJSONString_def
        leading_surrogate_def trailing_surrogate_def js_def)
  have a: \<open>appendImageUrlToStackTrace ?obj (Err ?marked) =
      Inr (Err (boom\<lparr>nemoScreenshotHandled := True, stack := Some (js ''Error: boom'' @ newline @
        js ''nemo-screenshot::{"imageName":"shot.png","imagePath":"/w/report/shot.png"}::nemo-screenshot'')\<rparr>))\<close>
    by (simp add: appendImageUrlToStackTrace_def imageUrl_of_def archivedImageUrl_of_def truthy_def
        str_def Let_def boom_def json js_append)
  have cb: \<open>getSession_callbacks host report_cfg (Some (js ''shot'')) (Fulfilled True) ?marked ?s1 =
      (True,
       boom\<lparr>nemoScreenshotHandled := True, stack := Some (js ''Error: boom'' @ newline @
        js ''nemo-screenshot::{"imageName":"shot.png","imagePath":"/w/report/shot.png"}::nemo-screenshot'')\<rparr>,
       \<lparr>files = [js ''/w/report/shot.png'' \<mapsto> Base64 (js ''aGk='')],
         trace = [DriverGetSession, DriverGetSession, DriverTakeScreenshot,
                  MkdirpSync (js ''/w/report''), FsWriteFile (js ''/w/report/shot.png'')]\<rparr>)\<close>
    by (simp add: getSession_callbacks_def Let_def truthy_def slug report_cfg_def [symmetric]
        case_prod_beta sn a)
       (simp add: report_cfg_def js_def)
  have hb: "listeners_before host = []" "getSession host = Thenable (Fulfilled True)"
    "stack_room host = 3"
    by (simp_all add: host_def)
  have unmarked: "\<not> nemoScreenshotHandled boom" by (simp add: boom_def)
  show ?thesis
    using unmarked
    by (subst uncaughtException_listener.simps)
      (simp add: hb cb Let_def flow_emit_before_def flow_emit_after_def
        listener_handled_exhausts_stack do_record numeral_3_eq_3 eval_nat_numeral)
qed

text \<open>
  C1. For an exception whose marker is already set, a pass of the listener emits the
  exception again at once and issues no capture. The flow calls the listener again from
  within that emission, so the pass does nothing but emit: it ends with what a listener
  of the host throws or with the RangeError of the exhausted stack, the exception object is
  unchanged, no file is touched, and the only effects are emissions of the exception: no
  session query, no screenshot, page-source or script command, no file-system call.
\<close>

theorem listener_handled_exception_only_reemits:
  "\<exists>thrown k.
     uncaughtException_listener (Suc room) w cfg title (exception\<lparr>nemoScreenshotHandled := True\<rparr>) s =
       Some (Some thrown, exception\<lparr>nemoScreenshotHandled := True\<rparr>,
             s\<lparr>trace := trace s @ FlowEmit (exception\<lparr>nemoScreenshotHandled := True\<rparr>)
                          # replicate k (FlowEmit (exception\<lparr>nemoScreenshotHandled := True\<rparr>))\<rparr>)"
  by (rule listener_handled) simp

section \<open>Paths below the base directory\<close>

lemma split_slash_nonempty [simp]: "split_slash s \<noteq> []"
  by (induction s) simp_all

lemma split_slash_append_slash:
  "split_slash (a @ slash # b) = split_slash a @ split_slash b"
  by (induction a) simp_all

lemma split_slash_no_slash: "seg \<in> set (split_slash s) \<Longrightarrow> slash \<notin> set seg"
proof (induction s arbitrary: seg)
  case Nil
  then show ?case by simp
next
  case (Cons c cs)
  obtain x xs where sp: "split_slash cs = x # xs"
    by (cases "split_slash cs") simp_all
  show ?case
  proof (cases "c = slash")
    case True
    with Cons show ?thesis by auto
  next
    case False
    with Cons.prems sp have "seg = c # x \<or> seg \<in> set xs" by simp
    then show ?thesis
      using Cons.IH [of x] Cons.IH [of seg] sp False by auto
  qed
qed

lemma split_slash_plain: "slash \<notin> set seg \<Longrightarrow> split_slash seg = [seg]"
  by (induction seg) auto

lemma split_join_slash:
  "segs \<noteq> [] \<Longrightarrow> \<forall>seg \<in> set segs. slash \<notin> set seg \<Longrightarrow> split_slash (join_slash segs) = segs"
proof (induction segs rule: join_slash.induct)
  case 1
  then show ?case by simp
next
  case (2 seg)
  then show ?case by (simp add: split_slash_plain)
next
  case (3 seg v va)
  then show ?case by (simp add: split_slash_append_slash split_slash_plain)
qed

lemma split_slash_append_plain:
  "slash \<notin> set b \<Longrightarrow>
     split_slash (a @ b) = butlast (split_slash a) @ [last (split_slash a) @ b]"
proof (induction a)
  case Nil
  then show ?case by (simp add: split_slash_plain)
next
  case (Cons c cs)
  obtain x xs where sp: "split_slash cs = x # xs"
    by (cases "split_slash cs") simp_all
  show ?case using Cons sp by (cases xs) auto
qed

lemma norm_step_skip: "\<not> kept seg \<Longrightarrow> norm_step a acc seg = acc"
  by (simp add: norm_step_def kept_def)

lemma norm_step_push: "kept seg \<Longrightarrow> seg \<noteq> js ''..'' \<Longrightarrow> norm_step a acc seg = seg # acc"
  by (simp add: norm_step_def kept_def)

lemma foldl_norm_step_no_dotdot:
  "js ''..'' \<notin> set segs \<Longrightarrow>
     foldl (norm_step a) acc segs = rev (filter kept segs) @ acc"
proof (induction segs arbitrary: acc)
  case Nil
  then show ?case by simp
next
  case (Cons x xs)
  then have x: "x \<noteq> js ''..''" and xs: "js ''..'' \<notin> set xs" by auto
  show ?case
  proof (cases "kept x")
    case True
    then show ?thesis using Cons.IH [OF xs] x by (simp add: norm_step_push)
  next
    case False
    then show ?thesis using Cons.IH [OF xs] by (simp add: norm_step_skip)
  qed
qed

lemma norm_step_False_subset:
  "set (norm_step False acc x) \<subseteq> set acc \<union> (if kept x \<and> x \<noteq> js ''..'' then {x} else {})"
proof (cases "kept x")
  case False
  then show ?thesis by (simp add: norm_step_skip)
next
  case True
  show ?thesis
  proof (cases "x = js ''..''")
    case False
    with True show ?thesis by (simp add: norm_step_push)
  next
    case dd: True
    have "norm_step False acc x = (case acc of [] \<Rightarrow> [] | l # rest \<Rightarrow> if l \<noteq> js ''..'' then rest else acc)"
      using True dd unfolding norm_step_def kept_def by (simp split: list.splits)
    then show ?thesis by (cases acc) auto
  qed
qed

lemma foldl_norm_step_False_clean:
  "list_all clean acc \<Longrightarrow> \<forall>seg \<in> set segs. slash \<notin> set seg \<Longrightarrow>
     list_all clean (foldl (norm_step False) acc segs)"
proof (induction segs arbitrary: acc)
  case Nil
  then show ?case by simp
next
  case (Cons x xs)
  have "list_all clean (norm_step False acc x)"
    using norm_step_False_subset [of acc x] Cons.prems
    by (auto simp: list_all_iff clean_def split: if_splits)
  then show ?case using Cons.IH [of "norm_step False acc x"] Cons.prems by simp
qed


lemma js_facts:
  "js ''/'' = [slash]" "js ''..'' \<noteq> []" "slash \<notin> set (js ''.png'')"
  "js ''.png'' \<noteq> []" "last (js ''.png'') \<noteq> slash" "length (js ''.png'') = 4" "length (js ''.'') = 1"
  by (simp_all add: js_def slash_def)

lemma join_slash_nonempty:
  "segs \<noteq> [] \<Longrightarrow> list_all clean segs \<Longrightarrow> join_slash segs \<noteq> []"
  by (induction segs rule: join_slash.induct) (simp_all add: clean_def kept_def)

lemma split_root_join:
  "list_all clean segs \<Longrightarrow>
     filter kept (split_slash (slash # join_slash segs)) = segs \<and>
     filter (\<lambda>seg. seg \<noteq> []) (split_slash (slash # join_slash segs)) = segs \<and>
     js ''..'' \<notin> set (split_slash (slash # join_slash segs))"
proof (cases "segs = []")
  case True
  then show ?thesis by (simp add: kept_def js_facts)
next
  case False
  assume c: "list_all clean segs"
  then have "\<forall>seg \<in> set segs. slash \<notin> set seg" by (simp add: list_all_iff clean_def)
  then have sp: "split_slash (join_slash segs) = segs" using False by (rule split_join_slash [rotated])
  have k: "filter kept segs = segs" "filter (\<lambda>seg. seg \<noteq> []) segs = segs" "js ''..'' \<notin> set segs"
    using c by (auto simp: list_all_iff clean_def kept_def filter_id_conv)
  show ?thesis using sp k by (simp add: kept_def js_facts)
qed

lemma segments_root_join: "list_all clean segs \<Longrightarrow> segments (slash # join_slash segs) = segs"
  unfolding segments_def using split_root_join by blast

lemma name_kept_nonempty:
  "filter kept (split_slash (f @ js ''.png'')) \<noteq> []"
proof -
  have sp: "split_slash (f @ js ''.png'') = butlast (split_slash f) @ [last (split_slash f) @ js ''.png'']"
    by (rule split_slash_append_plain) (rule js_facts)
  have "length (last (split_slash f) @ js ''.png'') \<noteq> length (js ''.'')"
    by (simp add: js_facts)
  then have "kept (last (split_slash f) @ js ''.png'')"
    unfolding kept_def using js_facts(4) by fastforce
  then show ?thesis by (simp add: sp)
qed

lemma path_join_under:
  assumes nodd: "js ''..'' \<notin> set (split_slash (f @ js ''.png''))"
  shows "path_under (slash # normalizeString False X) (path_join (slash # normalizeString False X) (f @ js ''.png''))"
proof -
  define N where "N = rev (foldl (norm_step False) [] (split_slash X))"
  define name where "name = f @ js ''.png''"
  define M where "M = filter kept (split_slash name)"
  have R: "normalizeString False X = join_slash N" by (simp add: normalizeString_def N_def)
  have cN: "list_all clean N"
    unfolding N_def using foldl_norm_step_False_clean [of "[]" "split_slash X"] split_slash_no_slash
    by simp
  have cM: "list_all clean M"
    unfolding M_def name_def using nodd split_slash_no_slash [of _ "f @ js ''.png''"]
    by (auto simp: list_all_iff clean_def)
  have M: "M \<noteq> []" unfolding M_def name_def by (rule name_kept_nonempty)
  have cNM: "list_all clean (N @ M)" using cN cM by simp
  have name: "name \<noteq> []" "last name \<noteq> slash" by (simp_all add: name_def js_facts)
  have sp: "split_slash ((slash # join_slash N) @ slash # name) =
              split_slash (slash # join_slash N) @ split_slash name"
    by (rule split_slash_append_slash)
  have "js ''..'' \<notin> set (split_slash ((slash # join_slash N) @ slash # name))"
    unfolding sp using split_root_join [OF cN] nodd by (simp add: name_def del: split_slash.simps)
  then have "foldl (norm_step False) [] (split_slash ((slash # join_slash N) @ slash # name)) =
               rev (filter kept (split_slash ((slash # join_slash N) @ slash # name))) @ []"
    by (rule foldl_norm_step_no_dotdot)
  also have "\<dots> = rev (N @ M)"
    unfolding sp using split_root_join [OF cN] by (simp add: M_def del: split_slash.simps)
  finally have ns: "normalizeString False ((slash # join_slash N) @ slash # name) = join_slash (N @ M)"
    by (simp add: normalizeString_def)
  have ne: "join_slash (N @ M) \<noteq> []" using M cNM by (intro join_slash_nonempty) simp_all
  have pj: "path_join (slash # join_slash N) name = slash # join_slash (N @ M)"
    using name ne ns by (simp add: path_join_def path_normalize_def js_facts Let_def)
  have "path_under (slash # join_slash N) (slash # join_slash (N @ M))"
    using M cNM by (auto simp: path_under_def segments_root_join [OF cN] segments_root_join [OF cNM]
        list_all_iff clean_def)
  then show ?thesis unfolding R pj [unfolded name_def] .
qed

lemma path_resolve_absolute:
  "cwd \<noteq> [] \<Longrightarrow> hd cwd = slash \<Longrightarrow> \<exists>X. path_resolve cwd d = slash # normalizeString False X"
  by (auto simp: path_resolve_def Let_def)


lemma snap_fulfilled:
  assumes "getSession w \<noteq> Falsy" and "takeScreenshot w = Fulfilled screenImg"
    and "imageFullPath =
           path_join (path_resolve (process_cwd w) (screenShotPath cfg)) (filename @ js ''.png'')"
    and "mkdirp_error w (path_dirname imageFullPath) = None"
    and "writeFile_outcome w imageFullPath = Written"
  shows "\<exists>imageObj. promise (fst (snap w cfg filename s)) = Fulfilled (Obj imageObj) \<and>
           imageName imageObj = filename @ js ''.png'' \<and> imagePath imageObj = imageFullPath \<and>
           files (snd (snap w cfg filename s)) imageFullPath = Some (Base64 screenImg)"
  using assms
  by (simp add: snap_def Let_def mkdirp_sync_def writeFile_def
      split: prod.splits option.splits write_outcome.splits)

text \<open>
  The claim C3 as it is stated fails for a file name that climbs out of the base directory:
  with the base \<open>/w/report\<close> and the file name \<open>../x\<close>, \<open>snap\<close> is fulfilled, the image
  name is \<open>../x.png\<close>, and the file is written to \<open>/w/x.png\<close>, which is not under
  \<open>/w/report\<close>.
\<close>

theorem snap_dotdot_counterexample:
  "getSession host \<noteq> Falsy \<and> takeScreenshot host = Fulfilled (js ''aGk='') \<and>
   promise (fst (snap host report_cfg (js ''../x'') fresh)) =
     Fulfilled (Obj \<lparr>imageUrl = None, archivedImageUrl = None,
                      imageName = js ''../x.png'', imagePath = js ''/w/x.png''\<rparr>) \<and>
   files (snd (snap host report_cfg (js ''../x'') fresh)) (js ''/w/x.png'') = Some (Base64 (js ''aGk='')) \<and>
   path_resolve (process_cwd host) (screenShotPath report_cfg) = js ''/w/report'' \<and>
   \<not> path_under (js ''/w/report'') (js ''/w/x.png'')"
proof -
  have j: "path_join (js ''/w/report'') (js ''../x.png'') = js ''/w/x.png''"
    by (simp add: path_join_def path_normalize_def normalizeString_def norm_step_def js_def slash_def)
  have u: "\<not> path_under (js ''/w/report'') (js ''/w/x.png'')"
    by (simp add: path_under_def segments_def js_def slash_def)
  have pth: "js ''/w/x.png'' =
      path_join (path_resolve (process_cwd host) (screenShotPath report_cfg)) (js ''../x'' @ js ''.png'')"
    by (simp add: host_facts report_cfg_def report_dir j js_append)
  show ?thesis
    using snap_outside_jenkins(1,2) [OF host_facts(1,2,3) pth host_facts(4,5), of fresh] u
    by (simp add: host_facts report_cfg_def report_dir js_append)
qed

text \<open>
  C3, amended. Let the working directory be absolute and let \<open>filename + '.png'\<close> have no
  \<open>..\<close> segment. Then \<open>snap\<close>, with a session, a screenshot, and a directory creation and a
  write that succeed, is fulfilled with an object whose \<open>imageName\<close> is
  \<open>filename + '.png'\<close> and whose \<open>imagePath\<close> lies under the resolved base directory, and
  the file at that path exists afterwards.
\<close>

theorem snap_writes_under_base:
  assumes "getSession w \<noteq> Falsy" and "takeScreenshot w = Fulfilled screenImg"
    and "process_cwd w \<noteq> []" and "hd (process_cwd w) = slash"
    and "js ''..'' \<notin> set (split_slash (filename @ js ''.png''))"
    and "mkdirp_error w (path_dirname (path_join (path_resolve (process_cwd w) (screenShotPath cfg))
                                                 (filename @ js ''.png''))) = None"
    and "writeFile_outcome w (path_join (path_resolve (process_cwd w) (screenShotPath cfg))
                                        (filename @ js ''.png'')) = Written"
  shows "\<exists>imageObj.
           promise (fst (snap w cfg filename s)) = Fulfilled (Obj imageObj) \<and>
           imageName imageObj = filename @ js ''.png'' \<and>
           path_under (path_resolve (process_cwd w) (screenShotPath cfg)) (imagePath imageObj) \<and>
           files (snd (snap w cfg filename s)) (imagePath imageObj) = Some (Base64 screenImg)"
proof -
  obtain X where X: "path_resolve (process_cwd w) (screenShotPath cfg) = slash # normalizeString False X"
    using path_resolve_absolute [OF assms(3,4)] by blast
  have under: "path_under (path_resolve (process_cwd w) (screenShotPath cfg))
      (path_join (path_resolve (process_cwd w) (screenShotPath cfg)) (filename @ js ''.png''))"
    unfolding X using assms(5) by (rule path_join_under)
  show ?thesis
    using snap_fulfilled [OF assms(1,2) refl assms(6,7), of s] under by auto
qed

theorem snap_writes_under_base_witness:
  "getSession host \<noteq> Falsy \<and> takeScreenshot host = Fulfilled (js ''aGk='') \<and>
   process_cwd host \<noteq> [] \<and> hd (process_cwd host) = slash \<and>
   js ''..'' \<notin> set (split_slash (js ''login/step1'' @ js ''.png'')) \<and>
   (\<exists>imageObj.
      promise (fst (snap host report_cfg (js ''login/step1'') fresh)) = Fulfilled (Obj imageObj) \<and>
      imageName imageObj = js ''login/step1'' @ js ''.png'' \<and>
      path_under (path_resolve (process_cwd host) (screenShotPath report_cfg)) (imagePath imageObj) \<and>
      files (snd (snap host report_cfg (js ''login/step1'') fresh)) (imagePath imageObj) =
        Some (Base64 (js ''aGk='')))"
proof -
  have c: "process_cwd host \<noteq> []" "hd (process_cwd host) = slash"
    by (simp_all add: host_facts js_def slash_def)
  have d: "js ''..'' \<notin> set (split_slash (js ''login/step1'' @ js ''.png''))"
    by (simp add: js_def slash_def)
  show ?thesis
    using host_facts(1,2) c d
      snap_writes_under_base [OF host_facts(1,2) c d host_facts(4,5), of report_cfg fresh]
    by blast
qed

end
